theory Spec2Isabelle
  imports Complex_Main
begin

section \<open>Data model of \<open>epistate_plus.py\<close>\<close>

text \<open>
  The engine \<open>READMeth\<close> works on numpy arrays of floating-point numbers. The embedding
  takes the arithmetic over the reals: a float array is a \<open>real list\<close>, a matrix a list of
  rows. Where numpy would produce \<open>inf\<close> or \<open>nan\<close> (a zero divisor, a logarithm of a
  number that is not positive) HOL's total functions return a fixed number instead, so the
  theorems below are stated on inputs where no such operation occurs, and rounding is not
  modelled.

  The three call values come from \<open>epiread_tools.naming_conventions\<close>, which is not part of
  the repository; they are the three-valued alphabet of the read matrices.
\<close>

datatype call = METHYLATED | UNMETHYLATED | NOVAL

type_synonym window = "call list list"
type_synonym vec = "real list"
type_synonym mat = "real list list"

text \<open>
  \<open>add_pseudocounts\<close> writes into the arrays it is given. The lambda arrays therefore live
  in a store of array objects, and a list of arrays is a list of references into it.
\<close>

type_synonym ref = nat
type_synonym store = "ref \<Rightarrow> vec"

datatype error = IndexError | ValueError

subsection \<open>Array operations of numpy and scipy used by the engine\<close>

definition ncols :: "'a list list \<Rightarrow> nat" where
  "ncols A = (case A of [] \<Rightarrow> 0 | r # _ \<Rightarrow> length r)"

definition transpose_m :: "'a list list \<Rightarrow> 'a list list" where
  "transpose_m A = map (\<lambda>j. map (\<lambda>r. r ! j) A) [0..<ncols A]"

definition dot :: "vec \<Rightarrow> vec \<Rightarrow> real" where
  "dot u v = sum_list (map2 (*) u v)"

text \<open>\<open>np.matmul\<close> of a matrix and a one-dimensional array.\<close>

definition matmul :: "mat \<Rightarrow> vec \<Rightarrow> vec" where
  "matmul A v = map (\<lambda>r. dot r v) A"

definition mat_add :: "mat \<Rightarrow> mat \<Rightarrow> mat" where
  "mat_add A B = map2 (map2 (+)) A B"

definition emul :: "mat \<Rightarrow> mat \<Rightarrow> mat" where
  "emul A B = map2 (map2 (*)) A B"

definition one_minus :: "vec \<Rightarrow> vec" where
  "one_minus v = map (\<lambda>a. 1 - a) v"

definition one_minus_m :: "mat \<Rightarrow> mat" where
  "one_minus_m A = map one_minus A"

definition tile :: "vec \<Rightarrow> nat \<Rightarrow> mat" where
  "tile v n = replicate n v"

definition ones :: "nat \<Rightarrow> nat \<Rightarrow> mat" where
  "ones r k = replicate r (replicate k 1)"

text \<open>\<open>v * A\<close> and \<open>A / v\<close> for a vector \<open>v\<close> as long as the rows of \<open>A\<close>: numpy applies
  \<open>v\<close> to every row.\<close>

definition bcast_mul :: "vec \<Rightarrow> mat \<Rightarrow> mat" where
  "bcast_mul v A = map (\<lambda>r. map2 (*) v r) A"

definition bcast_div :: "mat \<Rightarrow> vec \<Rightarrow> mat" where
  "bcast_div A v = map (\<lambda>r. map2 (/) r v) A"

definition sum_axis0 :: "mat \<Rightarrow> vec" where
  "sum_axis0 A = map sum_list (transpose_m A)"

definition sum_axis1 :: "mat \<Rightarrow> vec" where
  "sum_axis1 A = map sum_list A"

definition mean :: "vec \<Rightarrow> real" where
  "mean v = sum_list v / real (length v)"

text \<open>\<open>np.hstack\<close> joins matrices with the same number of rows along the second axis and
  raises \<open>ValueError\<close> on an empty sequence.\<close>

definition hstack :: "mat list \<Rightarrow> error + mat" where
  "hstack zs = (case zs of [] \<Rightarrow> Inl ValueError
     | z0 # _ \<Rightarrow> Inr (map (\<lambda>t. concat (map (\<lambda>z. z ! t) zs)) [0..<length z0]))"

text \<open>\<open>scipy.special.logsumexp\<close>: the logarithm of the sum of the exponentials, here along
  the first axis of a matrix.\<close>

definition logsumexp :: "vec \<Rightarrow> real" where
  "logsumexp v = ln (sum_list (map exp v))"

definition logsumexp_axis0 :: "mat \<Rightarrow> vec" where
  "logsumexp_axis0 A = map logsumexp (transpose_m A)"

text \<open>The same along the first axis of a stack of matrices.\<close>

definition logsumexp_axis0_3 :: "mat list \<Rightarrow> mat" where
  "logsumexp_axis0_3 As = map logsumexp_axis0 (transpose_m As)"

text \<open>\<open>np.nan_to_num(np.log(v))\<close>: the logarithm of zero is \<open>-inf\<close>, replaced by the most
  negative finite float; the logarithm of a negative number is \<open>nan\<close>, replaced by zero.\<close>

definition float_max :: real where
  "float_max = (2 - 1 / 2 ^ 52) * 2 ^ 1023"

definition nan_to_num_log :: "real \<Rightarrow> real" where
  "nan_to_num_log v = (if 0 < v then ln v else if v = 0 then - float_max else 0)"

text \<open>\<open>a[mask]\<close> for a list of booleans \<open>mask\<close>: numpy raises \<open>IndexError\<close> unless the mask is
  as long as the array.\<close>

definition bool_index :: "'a list \<Rightarrow> bool list \<Rightarrow> error + 'a list" where
  "bool_index a msk =
     (if length msk = length a then Inr (map fst (filter snd (zip a msk)))
      else Inl IndexError)"

subsection \<open>The engine\<close>

text \<open>
  The fields of a \<open>READMeth\<close> object. The theta arrays hold, for each window, one
  methylation probability per CpG site (the constructor's docstring), so that
  \<open>calc_x_given_prob\<close> yields one log-probability per read; these are the shapes with which
  every broadcast of \<open>log_likelihood\<close>, \<open>calc_mu\<close> and \<open>init_mu_no_log\<close> is well formed.
  \<open>self.alpha\<close> and \<open>self.z\<close> are rewritten by \<open>em\<close>; the loop below carries them as
  explicit state.
\<close>

record engine =
  self_x :: "window list"
  self_x_c_v :: "bool list"
  self_Lt :: "ref list"
  self_thetaH :: "vec list"
  self_thetaL :: "vec list"
  self_log_Lt :: "vec list"
  self_log_one_minus_Lt :: "vec list"
  self_num_iterations :: nat
  self_convergence_criteria :: real
  self_x_c_m :: "bool list list list"
  self_x_c_u :: "bool list list list"
  self_t :: nat
  self_c :: nat
  self_m :: nat
  self_alpha :: "vec option"
  self_log_x_given_H :: "vec list"
  self_log_x_given_L :: "vec list"

definition pseudocount :: real where
  "pseudocount = 1 / 10 ^ 10"

text \<open>\<open>arr[arr==1] -= pseudocount\<close> and \<open>arr[arr==0] += pseudocount\<close>, one after the other.\<close>

definition sub_where_one :: "vec \<Rightarrow> vec" where
  "sub_where_one arr = map (\<lambda>v. if v = 1 then v - pseudocount else v) arr"

definition add_where_zero :: "vec \<Rightarrow> vec" where
  "add_where_zero arr = map (\<lambda>v. if v = 0 then v + pseudocount else v) arr"

primrec add_pseudocounts_loop :: "ref list \<Rightarrow> store \<Rightarrow> store" where
  "add_pseudocounts_loop [] h = h"
| "add_pseudocounts_loop (arr # rest) h =
     add_pseudocounts_loop rest (h(arr := add_where_zero (sub_where_one (h arr))))"

definition add_pseudocounts :: "store \<Rightarrow> ref list \<Rightarrow> store \<times> ref list" where
  "add_pseudocounts h list_of_arrays = (add_pseudocounts_loop list_of_arrays h, list_of_arrays)"

definition has_coverage :: "window \<Rightarrow> bool" where
  "has_coverage w = (\<exists>r \<in> set w. \<exists>v \<in> set r. v \<noteq> NOVAL)"

definition astype_int :: "bool list list \<Rightarrow> mat" where
  "astype_int B = map (map of_bool) B"

definition calc_x_given_prob_win :: "bool list list \<Rightarrow> bool list list \<Rightarrow> vec \<Rightarrow> vec" where
  "calc_x_given_prob_win xm xu prob_w =
     (let x_c_m = astype_int xm;
          x_c_u = astype_int xu;
          log_prob = map nan_to_num_log prob_w;
          log_one_minus_prob = map nan_to_num_log (one_minus prob_w)
      in map2 (+) (matmul x_c_m log_prob) (matmul x_c_u log_one_minus_prob))"

definition calc_x_given_prob :: "engine \<Rightarrow> vec list \<Rightarrow> vec list" where
  "calc_x_given_prob self prob =
     map (\<lambda>window. calc_x_given_prob_win (self_x_c_m self ! window) (self_x_c_u self ! window)
                      (prob ! window))
         [0..<length (self_x self)]"

text \<open>\<open>filter_no_coverage\<close> keeps, in each of the four arrays, the windows whose mask entry
  is true.\<close>

definition filter_no_coverage ::
  "bool list \<Rightarrow> window list \<Rightarrow> ref list \<Rightarrow> vec list \<Rightarrow> vec list
     \<Rightarrow> error + (window list \<times> ref list \<times> vec list \<times> vec list)" where
  "filter_no_coverage x_c_v x Lt thetaH thetaL =
     (case bool_index x x_c_v of Inl e \<Rightarrow> Inl e | Inr x' \<Rightarrow>
       (case bool_index Lt x_c_v of Inl e \<Rightarrow> Inl e | Inr Lt' \<Rightarrow>
         (case bool_index thetaH x_c_v of Inl e \<Rightarrow> Inl e | Inr thetaH' \<Rightarrow>
           (case bool_index thetaL x_c_v of Inl e \<Rightarrow> Inl e | Inr thetaL' \<Rightarrow>
              Inr (x', Lt', thetaH', thetaL')))))"

text \<open>The constructor. It returns the store, which \<open>add_pseudocounts\<close> has already written
  when a later step raises, and the engine or the error. \<open>self.Lt[0]\<close> raises
  \<open>IndexError\<close> when no window is left.\<close>

definition READMeth_init ::
  "store \<Rightarrow> window list \<Rightarrow> ref list \<Rightarrow> vec list \<Rightarrow> vec list \<Rightarrow> nat \<Rightarrow> real \<Rightarrow> vec option
     \<Rightarrow> store \<times> (error + engine)" where
  "READMeth_init h mixtures lambda_t theta_high theta_low num_iterations convergence_criteria alpha =
     (let x_c_v = map has_coverage mixtures;
          (h', Lt0) = add_pseudocounts h lambda_t
      in (h',
          case filter_no_coverage x_c_v mixtures Lt0 theta_high theta_low of
            Inl e \<Rightarrow> Inl e
          | Inr (x, Lt, thetaH, thetaL) \<Rightarrow>
             (let log_Lt = map (\<lambda>r. map ln (h' r)) Lt;
                  log_one_minus_Lt = map (\<lambda>r. map ln (one_minus (h' r))) Lt;
                  x_c_m = map (map (map (\<lambda>v. v = METHYLATED))) x;
                  x_c_u = map (map (map (\<lambda>v. v = UNMETHYLATED))) x
              in case Lt of
                   [] \<Rightarrow> Inl IndexError
                 | r0 # _ \<Rightarrow>
                    (let self = \<lparr> self_x = x, self_x_c_v = x_c_v, self_Lt = Lt,
                                  self_thetaH = thetaH, self_thetaL = thetaL,
                                  self_log_Lt = log_Lt,
                                  self_log_one_minus_Lt = log_one_minus_Lt,
                                  self_num_iterations = num_iterations,
                                  self_convergence_criteria = convergence_criteria,
                                  self_x_c_m = x_c_m, self_x_c_u = x_c_u,
                                  self_t = length (h' r0),
                                  self_c = sum_list (map length x),
                                  self_m = sum_list (map ncols x),
                                  self_alpha = alpha,
                                  self_log_x_given_H = [], self_log_x_given_L = [] \<rparr>;
                         self = self\<lparr> self_log_x_given_H := calc_x_given_prob self thetaH \<rparr>
                     in Inr (self\<lparr> self_log_x_given_L := calc_x_given_prob self thetaL \<rparr>)))))"

subsection \<open>Likelihood, expectation and maximization\<close>

text \<open>In the functions below \<open>t_c\<close> is the matrix of ones with one row per cell type and
  one column per read, which the source multiplies with a vector to spread it over the
  rows or, through two transpositions, over the columns.\<close>

definition log_likelihood_win :: "vec \<Rightarrow> vec \<Rightarrow> vec \<Rightarrow> vec \<Rightarrow> vec \<Rightarrow> real" where
  "log_likelihood_win log_lambda log_one_minus_lambda logH logL alpha =
     (let t_c = ones (length log_lambda) (length logH);
          a = logsumexp_axis0_3
                [mat_add (transpose_m (bcast_mul log_lambda (transpose_m t_c))) (bcast_mul logH t_c),
                 mat_add (transpose_m (bcast_mul log_one_minus_lambda (transpose_m t_c)))
                         (bcast_mul logL t_c)];
          b = logsumexp_axis0
                (mat_add (transpose_m (bcast_mul (map ln alpha) (transpose_m t_c))) a)
      in sum_list b)"

definition log_likelihood :: "engine \<Rightarrow> vec \<Rightarrow> real" where
  "log_likelihood self alpha =
     sum_list (map (\<lambda>window. log_likelihood_win (self_log_Lt self ! window)
                               (self_log_one_minus_Lt self ! window)
                               (self_log_x_given_H self ! window)
                               (self_log_x_given_L self ! window) alpha)
                   [0..<length (self_x self)])"

definition calc_mu_win :: "nat \<Rightarrow> nat \<Rightarrow> vec \<Rightarrow> vec \<Rightarrow> vec \<Rightarrow> vec \<Rightarrow> mat \<Rightarrow> vec" where
  "calc_mu_win T C log_Lt_w log_one_minus_Lt_w logH logL z_w =
     (let t_c = ones T C;
          log_high = logsumexp_axis0
             (mat_add (mat_add (transpose_m (bcast_mul log_Lt_w (transpose_m t_c)))
                               (bcast_mul logH t_c))
                      (map (map ln) z_w));
          log_low = logsumexp_axis0
             (mat_add (mat_add (transpose_m (bcast_mul log_one_minus_Lt_w (transpose_m t_c)))
                               (bcast_mul logL t_c))
                      (map (map ln) z_w));
          log_mu = map2 (-) log_high (logsumexp_axis0 [log_high, log_low])
      in map exp log_mu)"

text \<open>\<open>calc_mu\<close> reads the number of cell types from \<open>self.alpha\<close>, passed here as
  \<open>alpha\<close>.\<close>

definition calc_mu :: "engine \<Rightarrow> vec \<Rightarrow> mat list \<Rightarrow> vec list" where
  "calc_mu self alpha z =
     map (\<lambda>window. calc_mu_win (length alpha) (length (self_x_c_m self ! window))
                      (self_log_Lt self ! window) (self_log_one_minus_Lt self ! window)
                      (self_log_x_given_H self ! window) (self_log_x_given_L self ! window)
                      (z ! window))
         [0..<length (self_x self)]"

definition calc_z_win :: "nat \<Rightarrow> nat \<Rightarrow> vec \<Rightarrow> vec \<Rightarrow> vec \<Rightarrow> mat" where
  "calc_z_win T C mu_w Lt_w alpha =
     (let mu_win = tile mu_w T;
          Lt_win = transpose_m (tile Lt_w C);
          alpha_win = transpose_m (tile alpha C);
          z_win = mat_add (emul (emul mu_win Lt_win) alpha_win)
                          (emul (emul (one_minus_m mu_win) (one_minus_m Lt_win)) alpha_win)
      in bcast_div z_win (sum_axis0 z_win))"

definition calc_z :: "store \<Rightarrow> engine \<Rightarrow> vec list \<Rightarrow> vec \<Rightarrow> mat list" where
  "calc_z h self mu alpha =
     map (\<lambda>window. calc_z_win (length alpha) (length (self_x_c_m self ! window))
                      (mu ! window) (h (self_Lt self ! window)) alpha)
         [0..<length (self_x self)]"

text \<open>\<open>init_alpha\<close>: the random source is explicit, \<open>uniform n\<close> being the outcome of
  \<open>np.random.uniform(size=n)\<close>. The result is the value of \<open>self.alpha\<close> afterwards.\<close>

definition init_alpha :: "engine \<Rightarrow> (nat \<Rightarrow> vec) \<Rightarrow> vec" where
  "init_alpha self uniform =
     (case self_alpha self of
        None \<Rightarrow> (let alpha = uniform (self_t self) in map (\<lambda>a. a / sum_list alpha) alpha)
      | Some alpha \<Rightarrow> alpha)"

definition init_mu_no_log_win :: "nat \<Rightarrow> nat \<Rightarrow> vec \<Rightarrow> vec \<Rightarrow> vec \<Rightarrow> vec \<Rightarrow> vec" where
  "init_mu_no_log_win T C alpha Lt_w logH logL =
     (let t_c = ones T C;
          high = sum_axis0 (bcast_mul (map exp logH)
                    (transpose_m (bcast_mul (map2 (*) alpha Lt_w) (transpose_m t_c))));
          low = sum_axis0 (bcast_mul (map exp logL)
                    (transpose_m (bcast_mul (map2 (*) alpha (one_minus Lt_w)) (transpose_m t_c))))
      in map2 (/) high (map2 (+) high low))"

definition init_mu_no_log :: "store \<Rightarrow> engine \<Rightarrow> vec \<Rightarrow> vec list" where
  "init_mu_no_log h self alpha =
     map (\<lambda>window. init_mu_no_log_win (length alpha) (length (self_x_c_m self ! window)) alpha
                      (h (self_Lt self ! window))
                      (self_log_x_given_H self ! window) (self_log_x_given_L self ! window))
         [0..<length (self_thetaH self)]"

definition maximization :: "engine \<Rightarrow> mat list \<Rightarrow> error + vec" where
  "maximization self z =
     (case hstack z of
        Inl e \<Rightarrow> Inl e
      | Inr all_z \<Rightarrow>
         (let new_alpha = map (\<lambda>s. s / real (self_c self)) (sum_axis1 all_z)
          in Inr (map (\<lambda>a. a / sum_list new_alpha) new_alpha)))"

text \<open>\<open>test_convergence\<close> compares the candidate with \<open>self.alpha\<close>, passed as \<open>alpha\<close>.\<close>

definition test_convergence :: "engine \<Rightarrow> vec \<Rightarrow> vec \<Rightarrow> bool" where
  "test_convergence self alpha new_alpha =
     (let alpha_diff = mean (map abs (map2 (-) new_alpha alpha)) / mean (map abs alpha)
      in alpha_diff < self_convergence_criteria self)"

subsection \<open>The EM loop\<close>

text \<open>
  The loop \<open>for i in range(self.num_iterations)\<close> runs over the list of its indices. Its
  state is \<open>self.alpha\<close>, the local \<open>mu\<close>, the trace \<open>ll\<close> and the loop variable \<open>i\<close>, which
  keeps its last value when the loop ends and is 0 when the range is empty.
\<close>

primrec em_loop ::
  "store \<Rightarrow> engine \<Rightarrow> nat list \<Rightarrow> vec \<Rightarrow> vec list \<Rightarrow> real list \<Rightarrow> nat \<Rightarrow> error + (vec \<times> nat)" where
  "em_loop h self [] alpha mu ll i = Inr (alpha, i)"
| "em_loop h self (j # rest) alpha mu ll i =
     (let ll' = ll @ [log_likelihood self alpha];
          z = calc_z h self mu alpha
      in case maximization self z of
           Inl e \<Rightarrow> Inl e
         | Inr new_alpha \<Rightarrow>
            (let mu' = calc_mu self alpha z
             in if j \<noteq> 0 \<and> test_convergence self alpha new_alpha then Inr (alpha, j)
                else em_loop h self rest new_alpha mu' ll' j))"

definition em :: "store \<Rightarrow> engine \<Rightarrow> (nat \<Rightarrow> vec) \<Rightarrow> error + (vec \<times> nat)" where
  "em h self uniform =
     (let alpha = init_alpha self uniform;
          mu = init_mu_no_log h self alpha
      in em_loop h self [0..<self_num_iterations self] alpha mu [] 0)"

subsection \<open>Auxiliary definitions for the proofs\<close>

text \<open>The matrix that \<open>calc_z\<close> builds before it normalises the columns.\<close>

definition z_unnorm :: "vec \<Rightarrow> vec \<Rightarrow> vec \<Rightarrow> mat" where
  "z_unnorm mu_w Lt_w alpha =
     map2 (\<lambda>l a. map (\<lambda>m. m * l * a + (1 - m) * (1 - l) * a) mu_w) Lt_w alpha"

text \<open>A small engine used to instantiate the theorems: two windows, of which the second has
  no informative call, two cell types, and a lambda array holding an exact 1 and an exact 0.\<close>

definition ex_store :: store where
  "ex_store = (\<lambda>r. if r = 3 then [3/4, 1/4] else if r = 4 then [1, 0] else [])"

definition ex_mixtures :: "window list" where
  "ex_mixtures = [[[METHYLATED]], [[NOVAL, NOVAL]]]"

definition ex_store' :: store where
  "ex_store' = (\<lambda>r. if r = 3 then [3/4, 1/4] else if r = 4 then [1 - pseudocount, pseudocount] else [])"

definition ex_self :: engine where
  "ex_self = \<lparr> self_x = [[[METHYLATED]]], self_x_c_v = [True, False], self_Lt = [3],
       self_thetaH = [[3/4]], self_thetaL = [[1/4]],
       self_log_Lt = [[ln (3/4), ln (1/4)]],
       self_log_one_minus_Lt = [[ln (1/4), ln (3/4)]],
       self_num_iterations = 50, self_convergence_criteria = 10,
       self_x_c_m = [[[True]]], self_x_c_u = [[[False]]],
       self_t = 2, self_c = 1, self_m = 1, self_alpha = Some [1/2, 1/2],
       self_log_x_given_H = [[ln (3/4)]], self_log_x_given_L = [[ln (1/4)]] \<rparr>"

text \<open>The object that the constructor builds from the filtered arrays.\<close>

definition mk_engine ::
  "store \<Rightarrow> bool list \<Rightarrow> window list \<Rightarrow> ref list \<Rightarrow> vec list \<Rightarrow> vec list \<Rightarrow> nat \<Rightarrow> real \<Rightarrow> vec option \<Rightarrow> engine" where
  "mk_engine h' x_c_v x Lt thetaH thetaL n crit alpha =
     \<lparr> self_x = x, self_x_c_v = x_c_v, self_Lt = Lt,
       self_thetaH = thetaH, self_thetaL = thetaL,
       self_log_Lt = map (\<lambda>r. map ln (h' r)) Lt,
       self_log_one_minus_Lt = map (\<lambda>r. map ln (one_minus (h' r))) Lt,
       self_num_iterations = n, self_convergence_criteria = crit,
       self_x_c_m = map (map (map (\<lambda>v. v = METHYLATED))) x,
       self_x_c_u = map (map (map (\<lambda>v. v = UNMETHYLATED))) x,
       self_t = length (h' (hd Lt)),
       self_c = sum_list (map length x),
       self_m = sum_list (map ncols x),
       self_alpha = alpha,
       self_log_x_given_H =
         map (\<lambda>window. calc_x_given_prob_win (map (map (map (\<lambda>v. v = METHYLATED))) x ! window)
                 (map (map (map (\<lambda>v. v = UNMETHYLATED))) x ! window) (thetaH ! window)) [0..<length x],
       self_log_x_given_L =
         map (\<lambda>window. calc_x_given_prob_win (map (map (map (\<lambda>v. v = METHYLATED))) x ! window)
                 (map (map (map (\<lambda>v. v = UNMETHYLATED))) x ! window) (thetaL ! window)) [0..<length x] \<rparr>"

text \<open>The maximization step in the words of its description: the sum of the responsibilities
  of all reads of all windows, per cell type, divided by the number of reads, then
  renormalised.\<close>

definition maximization_spec :: "real \<Rightarrow> nat \<Rightarrow> mat list \<Rightarrow> vec" where
  "maximization_spec C T z =
     (let per_type = map (\<lambda>t. \<Sum>z_w\<leftarrow>z. \<Sum>v\<leftarrow>z_w ! t. v) [0..<T];
          scaled = map (\<lambda>s. s / C) per_type
      in map (\<lambda>a. a / sum_list scaled) scaled)"




text \<open>A random source for the examples: every draw is \<open>1/4\<close>.\<close>

definition ex_uniform :: "nat \<Rightarrow> vec" where
  "ex_uniform n = replicate n (1/4)"

text \<open>One pass through the body of the loop in which the candidate is adopted, and the
  state after \<open>k\<close> such passes: \<open>self.alpha\<close> and \<open>mu\<close> at the start of iteration \<open>k\<close>.\<close>

definition em_step :: "store \<Rightarrow> engine \<Rightarrow> vec \<times> vec list \<Rightarrow> error + (vec \<times> vec list)" where
  "em_step h self s =
     (case maximization self (calc_z h self (snd s) (fst s)) of
        Inl e \<Rightarrow> Inl e
      | Inr new_alpha \<Rightarrow> Inr (new_alpha, calc_mu self (fst s) (calc_z h self (snd s) (fst s))))"

primrec em_iter :: "store \<Rightarrow> engine \<Rightarrow> nat \<Rightarrow> vec \<times> vec list \<Rightarrow> error + (vec \<times> vec list)" where
  "em_iter h self 0 s = Inr s"
| "em_iter h self (Suc k) s =
     (case em_iter h self k s of Inl e \<Rightarrow> Inl e | Inr s' \<Rightarrow> em_step h self s')"

text \<open>The example engine with the threshold \<open>0.22\<close>, for which the test fails at iteration 1
  and succeeds at iteration 2.\<close>

definition ex_self2 :: engine where
  "ex_self2 = ex_self\<lparr>self_convergence_criteria := 11/50\<rparr>"

section \<open>Array operations\<close>

lemma ncols_Cons [simp]: "ncols (r # A) = length r" by (simp add: ncols_def)
lemma ncols_Nil [simp]: "ncols [] = 0" by (simp add: ncols_def)

lemma ncols_replicate [simp]: "0 < n \<Longrightarrow> ncols (replicate n v) = length v"
  by (cases n) (simp_all)

lemma length_transpose_m [simp]: "length (transpose_m A) = ncols A"
  by (simp add: transpose_m_def)

lemma nth_transpose_m [simp]: "j < ncols A \<Longrightarrow> transpose_m A ! j = map (\<lambda>r. r ! j) A"
  by (simp add: transpose_m_def)

lemma transpose_m_replicate: "0 < n \<Longrightarrow> transpose_m (replicate n v) = map (replicate n) v"
proof (rule nth_equalityI)
  assume n: "0 < n"
  show "length (transpose_m (replicate n v)) = length (map (replicate n) v)"
    using n by simp
  fix i assume "i < length (transpose_m (replicate n v))"
  then have i: "i < length v" using n by simp
  then show "transpose_m (replicate n v) ! i = map (replicate n) v ! i"
    using n by (simp add: map_replicate)
qed




lemma sum_axis0_nth: "j < ncols A \<Longrightarrow> sum_axis0 A ! j = (\<Sum>r\<leftarrow>A. r ! j)"
  by (simp add: sum_axis0_def)


lemma sum_list_map_divide: "(\<Sum>x\<leftarrow>xs. f x / (k::real)) = (\<Sum>x\<leftarrow>xs. f x) / k"
  by (induction xs) (simp_all add: add_divide_distrib)

lemma sum_list_pos_real:
  fixes xs :: "real list"
  assumes "xs \<noteq> []" "\<And>x. x \<in> set xs \<Longrightarrow> 0 < x"
  shows "0 < sum_list xs"
  using assms
proof (induction xs)
  case Nil then show ?case by simp
next
  case (Cons a xs)
  have "0 \<le> sum_list xs" using Cons.prems(2) by (intro sum_list_nonneg) (simp add: less_imp_le)
  moreover have "0 < a" using Cons.prems(2) by simp
  ultimately show ?case by simp
qed

lemma bcast_div_cols_sum:
  assumes c: "c < ncols A" and rows: "\<And>r. r \<in> set A \<Longrightarrow> length r = ncols A"
    and nz: "sum_axis0 A ! c \<noteq> 0"
  shows "(\<Sum>r\<leftarrow>bcast_div A (sum_axis0 A). r ! c) = 1"
proof -
  have len: "length (sum_axis0 A) = ncols A" by (simp add: sum_axis0_def)
  have "map (\<lambda>r. r ! c) (bcast_div A (sum_axis0 A)) = map (\<lambda>r. r ! c / sum_axis0 A ! c) A"
    using c rows len by (simp add: bcast_div_def comp_def)
  then have "(\<Sum>r\<leftarrow>bcast_div A (sum_axis0 A). r ! c) = (\<Sum>r\<leftarrow>A. r ! c / sum_axis0 A ! c)"
    by (metis (no_types, lifting) map_map comp_def)
  also have "\<dots> = (\<Sum>r\<leftarrow>A. r ! c) / sum_axis0 A ! c" by (rule sum_list_map_divide)
  also have "\<dots> = 1" using nz c by (simp add: sum_axis0_nth)
  finally show ?thesis .
qed

lemma calc_z_win_unnorm:
  assumes "length Lt_w = length alpha" "0 < C" "length mu_w = C"
  shows "calc_z_win (length alpha) C mu_w Lt_w alpha =
           bcast_div (z_unnorm mu_w Lt_w alpha) (sum_axis0 (z_unnorm mu_w Lt_w alpha))"
proof -
  have "mat_add (emul (emul (tile mu_w (length alpha)) (transpose_m (tile Lt_w C)))
                      (transpose_m (tile alpha C)))
                (emul (emul (one_minus_m (tile mu_w (length alpha)))
                            (one_minus_m (transpose_m (tile Lt_w C))))
                      (transpose_m (tile alpha C)))
        = z_unnorm mu_w Lt_w alpha"
    using assms
    by (intro nth_equalityI)
       (simp_all add: mat_add_def emul_def tile_def one_minus_m_def one_minus_def
          transpose_m_replicate z_unnorm_def list_eq_iff_nth_eq)
  then show ?thesis by (simp add: calc_z_win_def Let_def)
qed

lemma z_unnorm_shape:
  assumes "length Lt_w = length alpha"
  shows "length (z_unnorm mu_w Lt_w alpha) = length alpha"
    and "r \<in> set (z_unnorm mu_w Lt_w alpha) \<Longrightarrow> length r = length mu_w"
    and "alpha \<noteq> [] \<Longrightarrow> ncols (z_unnorm mu_w Lt_w alpha) = length mu_w"
  using assms
  by (auto simp: z_unnorm_def set_zip ncols_def split: list.splits)

lemma z_unnorm_nth:
  assumes "length Lt_w = length alpha" "t < length alpha" "c < length mu_w"
  shows "z_unnorm mu_w Lt_w alpha ! t ! c =
           mu_w ! c * Lt_w ! t * alpha ! t + (1 - mu_w ! c) * (1 - Lt_w ! t) * alpha ! t"
  using assms by (simp add: z_unnorm_def)

lemma z_term_pos:
  fixes m l a :: real
  assumes "0 \<le> m" "m \<le> 1" "0 < l" "l < 1" "0 < a"
  shows "0 < m * l * a + (1 - m) * (1 - l) * a"
proof -
  have "0 < m * l + (1 - m) * (1 - l)"
  proof (cases "m = 0")
    case True then show ?thesis using assms by simp
  next
    case False
    then have "0 < m * l" using assms by simp
    moreover have "0 \<le> (1 - m) * (1 - l)" using assms by simp
    ultimately show ?thesis by linarith
  qed
  then have "0 < (m * l + (1 - m) * (1 - l)) * a" using assms by simp
  then show ?thesis by (simp add: algebra_simps)
qed


lemma sum_list_nth_conv: "(\<Sum>r\<leftarrow>A. f r) = (\<Sum>t<length A. f (A ! t))"
  by (auto simp: sum_list_sum_nth atLeast0LessThan intro!: sum.cong)

lemma z_unnorm_pos:
  assumes len: "length Lt_w = length alpha"
    and mu: "\<And>m. m \<in> set mu_w \<Longrightarrow> 0 \<le> m \<and> m \<le> 1"
    and lt: "\<And>l. l \<in> set Lt_w \<Longrightarrow> 0 < l \<and> l < 1"
    and al: "\<And>a. a \<in> set alpha \<Longrightarrow> 0 < a"
    and t: "t < length alpha" and c: "c < length mu_w"
  shows "0 < z_unnorm mu_w Lt_w alpha ! t ! c"
proof -
  have m: "0 \<le> mu_w ! c" "mu_w ! c \<le> 1" using mu[of "mu_w ! c"] c by simp_all
  have l: "0 < Lt_w ! t" "Lt_w ! t < 1" using lt[of "Lt_w ! t"] t len by simp_all
  have a: "0 < alpha ! t" using al[of "alpha ! t"] t by simp
  show ?thesis
    unfolding z_unnorm_nth[OF len t c] by (rule z_term_pos[OF m l a])
qed

lemma sum_axis0_pos:
  assumes ne: "A \<noteq> []" and c: "c < ncols A"
    and pos: "\<And>t. t < length A \<Longrightarrow> 0 < A ! t ! c"
  shows "0 < sum_axis0 A ! c"
proof -
  have "0 < (\<Sum>r\<leftarrow>A. r ! c)"
  proof (rule sum_list_pos_real)
    show "map (\<lambda>r. r ! c) A \<noteq> []" using ne by simp
    fix x assume "x \<in> set (map (\<lambda>r. r ! c) A)"
    then obtain r where r: "r \<in> set A" "x = r ! c" by auto
    then obtain t where "t < length A" "r = A ! t" by (metis in_set_conv_nth)
    then show "0 < x" using pos r by simp
  qed
  then show ?thesis using c by (simp add: sum_axis0_nth)
qed

section \<open>Responsibilities\<close>




lemma calc_z_win_col_sum:
  assumes len: "length Lt_w = length alpha" and C: "0 < C" "length mu_w = C"
    and T: "alpha \<noteq> []"
    and mu: "\<And>m. m \<in> set mu_w \<Longrightarrow> 0 \<le> m \<and> m \<le> 1"
    and lt: "\<And>l. l \<in> set Lt_w \<Longrightarrow> 0 < l \<and> l < 1"
    and al: "\<And>a. a \<in> set alpha \<Longrightarrow> 0 < a"
    and c: "c < C"
  shows "(\<Sum>t<length alpha. calc_z_win (length alpha) C mu_w Lt_w alpha ! t ! c) = 1"
proof -
  let ?U = "z_unnorm mu_w Lt_w alpha"
  have lenU: "length ?U = length alpha" by (rule z_unnorm_shape(1)[OF len])
  have ncU: "ncols ?U = C" using z_unnorm_shape(3)[OF len T] C by simp
  have rowU: "\<And>r. r \<in> set ?U \<Longrightarrow> length r = ncols ?U"
    using z_unnorm_shape(2)[OF len] ncU C by simp
  have c': "c < length mu_w" using c C by simp
  have spos: "0 < sum_axis0 ?U ! c"
  proof (rule sum_axis0_pos)
    show "?U \<noteq> []" using lenU T by auto
    show "c < ncols ?U" using ncU c by simp
    fix s assume "s < length ?U"
    then have sl: "s < length alpha" using lenU by simp
    show "0 < ?U ! s ! c" by (rule z_unnorm_pos[OF len mu lt al sl c'])
  qed
  have one: "(\<Sum>r\<leftarrow>bcast_div ?U (sum_axis0 ?U). r ! c) = 1"
  proof (rule bcast_div_cols_sum)
    show "c < ncols ?U" using ncU c by simp
    show "\<And>r. r \<in> set ?U \<Longrightarrow> length r = ncols ?U" by (rule rowU)
    show "sum_axis0 ?U ! c \<noteq> 0" using spos by simp
  qed
  have lenB: "length (bcast_div ?U (sum_axis0 ?U)) = length alpha"
    using lenU by (simp add: bcast_div_def)
  show ?thesis
    unfolding calc_z_win_unnorm[OF len C]
    using one unfolding sum_list_nth_conv[of "\<lambda>r. r ! c"] lenB .
qed

section \<open>The example engine\<close>

lemma ex_store'_3: "ex_store' 3 = [3/4, 1/4]" by (simp add: ex_store'_def)

lemma ex_pseudo: "add_pseudocounts ex_store [3, 4] = (ex_store', [3, 4])"
  by (auto simp: add_pseudocounts_def ex_store_def ex_store'_def add_where_zero_def
        sub_where_one_def pseudocount_def fun_eq_iff)

lemma ex_filter: "filter_no_coverage [True, False] ex_mixtures [3, 4] [[3/4], [1/2, 1/2]] [[1/4], [1/2, 1/2]]
   = Inr ([[[METHYLATED]]], [3], [[3/4]], [[1/4]])"
  by (simp add: filter_no_coverage_def bool_index_def ex_mixtures_def)

lemma ex_cov: "map has_coverage ex_mixtures = [True, False]"
  by (simp add: has_coverage_def ex_mixtures_def)

lemma ex_init:
  "READMeth_init ex_store ex_mixtures [3, 4] [[3/4], [1/2, 1/2]] [[1/4], [1/2, 1/2]] 50 10 (Some [1/2, 1/2])
     = (ex_store', Inr ex_self)"
  by (simp add: READMeth_init_def ex_cov ex_pseudo ex_filter Let_def ex_store'_3 ex_self_def
        calc_x_given_prob_def calc_x_given_prob_win_def astype_int_def matmul_def dot_def
        one_minus_def nan_to_num_log_def ncols_def)

section \<open>Columns of the responsibility matrices\<close>

lemma calc_z_nth:
  "window < length (self_x self) \<Longrightarrow>
   calc_z h self mu alpha ! window =
     calc_z_win (length alpha) (length (self_x_c_m self ! window)) (mu ! window)
       (h (self_Lt self ! window)) alpha"
  by (simp add: calc_z_def)

text \<open>
  Claim C3. For every retained window and every read column \<open>c\<close>, the entries
  \<open>z[t,c]\<close> of the matrix returned by \<open>calc_z\<close> sum to 1 over the cell types \<open>t\<close>,
  when \<open>mu\<close> has one entry in [0,1] per read, the lambda array of the window has one
  entry in (0,1) per cell type and \<open>alpha\<close> is a non-empty vector of positive numbers.
\<close>

theorem calc_z_columns_sum_to_one:
  assumes "window < length (self_x self)"
    and "c < length (self_x_c_m self ! window)"
    and "length (mu ! window) = length (self_x_c_m self ! window)"
    and "length (h (self_Lt self ! window)) = length alpha"
    and "alpha \<noteq> []"
    and "\<forall>m \<in> set (mu ! window). 0 \<le> m \<and> m \<le> 1"
    and "\<forall>l \<in> set (h (self_Lt self ! window)). 0 < l \<and> l < 1"
    and "\<forall>a \<in> set alpha. 0 < a"
  shows "(\<Sum>t<length alpha. calc_z h self mu alpha ! window ! t ! c) = 1"
proof -
  have C: "0 < length (self_x_c_m self ! window)" using assms(2) by (cases "self_x_c_m self ! window") simp_all
  show ?thesis
    unfolding calc_z_nth[OF assms(1)]
    by (rule calc_z_win_col_sum[OF assms(4) C assms(3) assms(5)])
       (use assms in simp_all)
qed

theorem calc_z_columns_sum_to_one_witness:
  "(\<Sum>t<length [1/2, 1/2::real]. calc_z ex_store' ex_self [[3/4]] [1/2, 1/2] ! 0 ! t ! 0) = 1"
  by (rule calc_z_columns_sum_to_one) (simp_all add: ex_self_def ex_store'_3)

section \<open>Pseudocounts and the constructor\<close>

lemma pseudocount_bounds: "0 < pseudocount" "pseudocount < 1"
  by (simp_all add: pseudocount_def)

lemma pc_length [simp]: "length (add_where_zero (sub_where_one v)) = length v"
  by (simp add: add_where_zero_def sub_where_one_def)

lemma pc_nth:
  "i < length v \<Longrightarrow> add_where_zero (sub_where_one v) ! i =
     (if v ! i = 1 then 1 - pseudocount else if v ! i = 0 then pseudocount else v ! i)"
  using pseudocount_bounds by (simp add: add_where_zero_def sub_where_one_def)

lemma pc_idem:
  "add_where_zero (sub_where_one (add_where_zero (sub_where_one v))) = add_where_zero (sub_where_one v)"
proof (rule nth_equalityI)
  show "length (add_where_zero (sub_where_one (add_where_zero (sub_where_one v))))
          = length (add_where_zero (sub_where_one v))" by simp
  fix i assume "i < length (add_where_zero (sub_where_one (add_where_zero (sub_where_one v))))"
  then have i: "i < length v" by simp
  then have i': "i < length (add_where_zero (sub_where_one v))" by simp
  show "add_where_zero (sub_where_one (add_where_zero (sub_where_one v))) ! i
          = add_where_zero (sub_where_one v) ! i"
    unfolding pc_nth[OF i'] unfolding pc_nth[OF i] using pseudocount_bounds by auto
qed

lemma add_pseudocounts_loop_apply:
  "add_pseudocounts_loop rs h r =
     (if r \<in> set rs then add_where_zero (sub_where_one (h r)) else h r)"
proof (induction rs arbitrary: h)
  case Nil
  show ?case by simp
next
  case (Cons a rs)
  show ?case by (simp add: Cons.IH pc_idem)
qed

lemma pc_range:
  assumes "\<forall>v \<in> set xs. 0 \<le> v \<and> v \<le> 1"
  shows "\<forall>v \<in> set (add_where_zero (sub_where_one xs)). 0 < v \<and> v < 1"
proof
  fix v assume "v \<in> set (add_where_zero (sub_where_one xs))"
  then obtain i where i: "i < length xs" and v: "v = add_where_zero (sub_where_one xs) ! i"
    by (metis in_set_conv_nth pc_length)
  have "0 \<le> xs ! i \<and> xs ! i \<le> 1" using assms i by simp
  then show "0 < v \<and> v < 1"
    unfolding v pc_nth[OF i] using pseudocount_bounds by auto
qed

lemma keep_zip:
  "length a = length ws \<Longrightarrow>
   map fst (filter snd (zip a (map P ws))) = map fst (filter (P \<circ> snd) (zip a ws))"
  by (induction a ws rule: list_induct2) simp_all

lemma keep_self: "map fst (filter snd (zip ws (map P ws))) = filter P ws"
  by (induction ws) simp_all

lemma keep_subset: "set (map fst (filter snd (zip a msk))) \<subseteq> set a"
  by (auto dest: set_zip_leftD)

lemma filter_no_coverage_Inr:
  assumes "filter_no_coverage (map has_coverage mixtures) mixtures Lt0 thH thL = Inr (x, Lt, thetaH, thetaL)"
  shows "length Lt0 = length mixtures" "length thH = length mixtures" "length thL = length mixtures"
    and "x = filter has_coverage mixtures"
    and "Lt = map fst (filter (has_coverage \<circ> snd) (zip Lt0 mixtures))"
    and "thetaH = map fst (filter (has_coverage \<circ> snd) (zip thH mixtures))"
    and "thetaL = map fst (filter (has_coverage \<circ> snd) (zip thL mixtures))"
  using assms
  by (auto simp: filter_no_coverage_def bool_index_def keep_zip keep_self
           split: sum.splits if_splits)

lemma READMeth_init_Inr:
  assumes "READMeth_init h mixtures lambda_t thH thL n crit alpha = (h', Inr self)"
  shows "h' = add_pseudocounts_loop lambda_t h"
    and "length lambda_t = length mixtures" "length thH = length mixtures" "length thL = length mixtures"
    and "map fst (filter (has_coverage \<circ> snd) (zip lambda_t mixtures)) \<noteq> []"
    and "self = mk_engine h' (map has_coverage mixtures) (filter has_coverage mixtures)
                  (map fst (filter (has_coverage \<circ> snd) (zip lambda_t mixtures)))
                  (map fst (filter (has_coverage \<circ> snd) (zip thH mixtures)))
                  (map fst (filter (has_coverage \<circ> snd) (zip thL mixtures))) n crit alpha"
proof -
  let ?h = "add_pseudocounts_loop lambda_t h"
  from assms have h': "h' = ?h"
    by (simp add: READMeth_init_def add_pseudocounts_def Let_def)
  from assms obtain x Lt thetaH thetaL where
    f: "filter_no_coverage (map has_coverage mixtures) mixtures lambda_t thH thL = Inr (x, Lt, thetaH, thetaL)"
    by (auto simp: READMeth_init_def add_pseudocounts_def Let_def split: sum.splits)
  note F = filter_no_coverage_Inr[OF f]
  from assms f obtain r0 rest where Lt: "Lt = r0 # rest"
    by (auto simp: READMeth_init_def add_pseudocounts_def Let_def split: list.splits)
  from assms f Lt have "self = mk_engine ?h (map has_coverage mixtures) x Lt thetaH thetaL n crit alpha"
    by (auto simp: READMeth_init_def add_pseudocounts_def Let_def mk_engine_def calc_x_given_prob_def)
  then show "self = mk_engine h' (map has_coverage mixtures) (filter has_coverage mixtures)
                  (map fst (filter (has_coverage \<circ> snd) (zip lambda_t mixtures)))
                  (map fst (filter (has_coverage \<circ> snd) (zip thH mixtures)))
                  (map fst (filter (has_coverage \<circ> snd) (zip thL mixtures))) n crit alpha"
    using F h' by simp
  show "h' = ?h" by (rule h')
  show "length lambda_t = length mixtures" "length thH = length mixtures" "length thL = length mixtures"
    using F by simp_all
  show "map fst (filter (has_coverage \<circ> snd) (zip lambda_t mixtures)) \<noteq> []"
    using F(5) Lt by (metis list.distinct(1))
qed

lemma READMeth_init_store:
  "fst (READMeth_init h mixtures lambda_t thH thL n crit alpha) = add_pseudocounts_loop lambda_t h"
  by (simp add: READMeth_init_def add_pseudocounts_def Let_def)

lemma length_keep_zip:
  "length a = length ws \<Longrightarrow>
   length (filter (P \<circ> snd) (zip a ws)) = length (filter P ws)"
  by (induction a ws rule: list_induct2) simp_all

text \<open>
  Claim C8. \<open>add_pseudocounts\<close> changes exactly the entries of the lambda arrays that are
  exactly 1 (decreased by \<open>1e-10\<close>) or exactly 0 (increased by \<open>1e-10\<close>) and leaves every
  other entry, and every array that is not in the list, as it was. It writes into the
  caller's arrays and returns the list it was given: the store that the constructor leaves
  behind is the corrected one, the arrays of the engine's \<open>Lt\<close> are arrays of the caller's
  \<open>lambda_t\<close>, and when the entries were probabilities (in [0,1]) all of them are strictly
  between 0 and 1 afterwards.
\<close>

theorem add_pseudocounts_in_place:
  assumes "READMeth_init h mixtures lambda_t theta_high theta_low n crit alpha = (h', res)"
  shows "add_pseudocounts h lambda_t = (h', lambda_t)
     \<and> (\<forall>arr \<in> set lambda_t. length (h' arr) = length (h arr) \<and>
          (\<forall>i < length (h arr). h' arr ! i =
             (if h arr ! i = 1 then h arr ! i - 1 / 10 ^ 10
              else if h arr ! i = 0 then h arr ! i + 1 / 10 ^ 10 else h arr ! i)))
     \<and> (\<forall>r. r \<notin> set lambda_t \<longrightarrow> h' r = h r)
     \<and> (\<forall>self. res = Inr self \<longrightarrow> set (self_Lt self) \<subseteq> set lambda_t)
     \<and> ((\<forall>arr \<in> set lambda_t. \<forall>v \<in> set (h arr). 0 \<le> v \<and> v \<le> 1) \<longrightarrow>
          (\<forall>arr \<in> set lambda_t. \<forall>v \<in> set (h' arr). 0 < v \<and> v < 1))"
proof -
  have h': "h' = add_pseudocounts_loop lambda_t h"
    using READMeth_init_store[of h mixtures lambda_t theta_high theta_low n crit alpha] assms
    by simp
  have same: "add_pseudocounts h lambda_t = (h', lambda_t)"
    by (simp add: add_pseudocounts_def h')
  have inside: "h' arr = add_where_zero (sub_where_one (h arr))" if "arr \<in> set lambda_t" for arr
    using that by (simp add: h' add_pseudocounts_loop_apply)
  have entries: "\<forall>arr \<in> set lambda_t. length (h' arr) = length (h arr) \<and>
          (\<forall>i < length (h arr). h' arr ! i =
             (if h arr ! i = 1 then h arr ! i - 1 / 10 ^ 10
              else if h arr ! i = 0 then h arr ! i + 1 / 10 ^ 10 else h arr ! i))"
    by (simp add: inside pc_nth pseudocount_def)
  have outside: "\<forall>r. r \<notin> set lambda_t \<longrightarrow> h' r = h r"
    by (simp add: h' add_pseudocounts_loop_apply)
  have aliasing: "\<forall>self. res = Inr self \<longrightarrow> set (self_Lt self) \<subseteq> set lambda_t"
  proof (intro allI impI)
    fix self assume "res = Inr self"
    then have "READMeth_init h mixtures lambda_t theta_high theta_low n crit alpha = (h', Inr self)"
      using assms by simp
    from READMeth_init_Inr(6)[OF this]
    have "self_Lt self = map fst (filter (has_coverage \<circ> snd) (zip lambda_t mixtures))"
      by (simp add: mk_engine_def)
    then show "set (self_Lt self) \<subseteq> set lambda_t"
      by (auto dest: set_zip_leftD)
  qed
  have range: "(\<forall>arr \<in> set lambda_t. \<forall>v \<in> set (h arr). 0 \<le> v \<and> v \<le> 1) \<longrightarrow>
          (\<forall>arr \<in> set lambda_t. \<forall>v \<in> set (h' arr). 0 < v \<and> v < 1)"
  proof (intro impI ballI)
    fix arr v
    assume a: "\<forall>arr \<in> set lambda_t. \<forall>v \<in> set (h arr). 0 \<le> v \<and> v \<le> 1"
      and arr: "arr \<in> set lambda_t" and v: "v \<in> set (h' arr)"
    have "\<forall>v \<in> set (h arr). 0 \<le> v \<and> v \<le> 1" using a arr by simp
    from pc_range[OF this] v show "0 < v \<and> v < 1" by (simp add: inside[OF arr])
  qed
  show ?thesis using same entries outside aliasing range by blast
qed

theorem add_pseudocounts_in_place_witness:
  "add_pseudocounts ex_store [3, 4] = (ex_store', [3, 4])
   \<and> ex_store 4 = [1, 0] \<and> ex_store' 4 = [1 - 1 / 10 ^ 10, 1 / 10 ^ 10]
   \<and> ex_store' 3 = ex_store 3
   \<and> set (self_Lt ex_self) \<subseteq> set [3, 4]
   \<and> 0 < ex_store' 4 ! 0 \<and> ex_store' 4 ! 0 < 1 \<and> 0 < ex_store' 4 ! 1 \<and> ex_store' 4 ! 1 < 1"
proof -
  note A = add_pseudocounts_in_place[OF ex_init]
  have same: "add_pseudocounts ex_store [3, 4] = (ex_store', [3, 4])" using A by blast
  have sub: "set (self_Lt ex_self) \<subseteq> set [3, 4]" using A by blast
  have vals: "ex_store 4 = [1, 0]" "ex_store' 4 = [1 - 1 / 10 ^ 10, 1 / 10 ^ 10]" "ex_store' 3 = ex_store 3"
    by (simp_all add: ex_store_def ex_store'_def pseudocount_def)
  have pre: "\<forall>arr \<in> set [3, 4]. \<forall>v \<in> set (ex_store arr). 0 \<le> v \<and> v \<le> 1"
    by (simp add: ex_store_def)
  have post: "\<forall>arr \<in> set [3, 4]. \<forall>v \<in> set (ex_store' arr). 0 < v \<and> v < 1"
    using A pre by blast
  have mem: "ex_store' 4 ! 0 \<in> set (ex_store' 4)" "ex_store' 4 ! 1 \<in> set (ex_store' 4)"
    by (simp_all add: vals(2))
  have four: "(4::nat) \<in> set [3, 4]" by simp
  have rng: "0 < ex_store' 4 ! 0 \<and> ex_store' 4 ! 0 < 1" "0 < ex_store' 4 ! 1 \<and> ex_store' 4 ! 1 < 1"
    using post mem four by blast+
  show ?thesis using same sub vals rng by blast
qed

text \<open>
  Claim C7. After the constructor, the retained windows are exactly the windows with at
  least one call that is not \<open>NOVAL\<close>, in their order; a window whose calls are all
  \<open>NOVAL\<close> is in none of \<open>x\<close>, \<open>Lt\<close>, \<open>thetaH\<close>, \<open>thetaL\<close>, which keep the same
  positions, and every quantity computed afterwards (the logarithms of lambda, the
  methylation masks, the read and site counts, the log-likelihoods per epistate) is computed
  from the retained windows only.
\<close>

theorem filter_no_coverage_drops_empty_windows:
  assumes "READMeth_init h mixtures lambda_t theta_high theta_low n crit alpha = (h', Inr self)"
  shows "self_x self = filter has_coverage mixtures
     \<and> self_x self \<noteq> []
     \<and> (\<forall>w \<in> set (self_x self). \<exists>r \<in> set w. \<exists>v \<in> set r. v \<noteq> NOVAL)
     \<and> (\<forall>w \<in> set mixtures. (\<forall>r \<in> set w. \<forall>v \<in> set r. v = NOVAL) \<longrightarrow> w \<notin> set (self_x self))
     \<and> self_Lt self = map fst (filter (has_coverage \<circ> snd) (zip lambda_t mixtures))
     \<and> self_thetaH self = map fst (filter (has_coverage \<circ> snd) (zip theta_high mixtures))
     \<and> self_thetaL self = map fst (filter (has_coverage \<circ> snd) (zip theta_low mixtures))
     \<and> length (self_Lt self) = length (self_x self)
     \<and> length (self_thetaH self) = length (self_x self)
     \<and> length (self_thetaL self) = length (self_x self)
     \<and> self_log_Lt self = map (\<lambda>r. map ln (h' r)) (self_Lt self)
     \<and> self_log_one_minus_Lt self = map (\<lambda>r. map ln (one_minus (h' r))) (self_Lt self)
     \<and> self_x_c_m self = map (map (map (\<lambda>v. v = METHYLATED))) (self_x self)
     \<and> self_x_c_u self = map (map (map (\<lambda>v. v = UNMETHYLATED))) (self_x self)
     \<and> self_c self = sum_list (map length (self_x self))
     \<and> self_m self = sum_list (map ncols (self_x self))
     \<and> self_log_x_given_H self = calc_x_given_prob self (self_thetaH self)
     \<and> self_log_x_given_L self = calc_x_given_prob self (self_thetaL self)
     \<and> length (self_log_x_given_H self) = length (self_x self)
     \<and> length (self_log_x_given_L self) = length (self_x self)"
proof -
  note I = READMeth_init_Inr[OF assms]
  let ?keep = "\<lambda>a. map fst (filter (has_coverage \<circ> snd) (zip a mixtures))"
  have x: "self_x self = filter has_coverage mixtures" using I(6) by (simp add: mk_engine_def)
  have lt: "self_Lt self = ?keep lambda_t" using I(6) by (simp add: mk_engine_def)
  have th: "self_thetaH self = ?keep theta_high" using I(6) by (simp add: mk_engine_def)
  have tl: "self_thetaL self = ?keep theta_low" using I(6) by (simp add: mk_engine_def)
  have len: "length (self_Lt self) = length (self_x self)"
      "length (self_thetaH self) = length (self_x self)"
      "length (self_thetaL self) = length (self_x self)"
    using I(2,3,4) by (simp_all add: x lt th tl length_keep_zip)
  have ne: "self_x self \<noteq> []" using len(1) lt I(5) by auto
  have cov: "\<forall>w \<in> set (self_x self). \<exists>r \<in> set w. \<exists>v \<in> set r. v \<noteq> NOVAL"
    by (simp add: x has_coverage_def)
  have absent: "\<forall>w \<in> set mixtures. (\<forall>r \<in> set w. \<forall>v \<in> set r. v = NOVAL) \<longrightarrow> w \<notin> set (self_x self)"
    by (auto simp: x has_coverage_def)
  have logs: "self_log_Lt self = map (\<lambda>r. map ln (h' r)) (self_Lt self)"
     "self_log_one_minus_Lt self = map (\<lambda>r. map ln (one_minus (h' r))) (self_Lt self)"
    using I(6) by (simp_all add: mk_engine_def)
  have masks: "self_x_c_m self = map (map (map (\<lambda>v. v = METHYLATED))) (self_x self)"
     "self_x_c_u self = map (map (map (\<lambda>v. v = UNMETHYLATED))) (self_x self)"
    using I(6) by (simp_all add: mk_engine_def)
  have counts: "self_c self = sum_list (map length (self_x self))"
     "self_m self = sum_list (map ncols (self_x self))"
    using I(6) by (simp_all add: mk_engine_def)
  have ll: "self_log_x_given_H self = calc_x_given_prob self (self_thetaH self)"
     "self_log_x_given_L self = calc_x_given_prob self (self_thetaL self)"
    using I(6) by (simp_all add: mk_engine_def calc_x_given_prob_def)
  have lll: "length (self_log_x_given_H self) = length (self_x self)"
     "length (self_log_x_given_L self) = length (self_x self)"
    unfolding ll by (simp_all add: calc_x_given_prob_def)
  show ?thesis
    using x ne cov absent lt th tl len logs masks counts ll lll by blast
qed

theorem filter_no_coverage_drops_empty_windows_witness:
  "self_x ex_self = filter has_coverage ex_mixtures
   \<and> self_x ex_self \<noteq> []
   \<and> [[NOVAL, NOVAL]] \<notin> set (self_x ex_self)
   \<and> length (self_Lt ex_self) = length (self_x ex_self)
   \<and> length (self_log_x_given_H ex_self) = length (self_x ex_self)"
proof -
  note A = filter_no_coverage_drops_empty_windows[OF ex_init]
  have m: "[[NOVAL, NOVAL]] \<in> set ex_mixtures" by (simp add: ex_mixtures_def)
  have n: "\<forall>r \<in> set [[NOVAL, NOVAL]]. \<forall>v \<in> set r. v = NOVAL" by simp
  have "[[NOVAL, NOVAL]] \<notin> set (self_x ex_self)" using A m n by blast
  then show ?thesis using A by blast
qed

section \<open>Log-likelihood of the reads under one epistate\<close>

lemma dot_sum:
  assumes "length u = length v"
  shows "dot u v = (\<Sum>i<length v. u ! i * v ! i)"
proof -
  have "dot u v = (\<Sum>i<length (map2 (*) u v). map2 (*) u v ! i)"
    unfolding dot_def using sum_list_nth_conv[of "\<lambda>r. r" "map2 (*) u v"] by simp
  also have "\<dots> = (\<Sum>i<length v. u ! i * v ! i)"
    using assms by (intro sum.cong) simp_all
  finally show ?thesis .
qed

lemma nan_to_num_log_ln: "0 < v \<Longrightarrow> nan_to_num_log v = ln v"
  by (simp add: nan_to_num_log_def)

lemma calc_x_given_prob_win_nth:
  assumes c: "c < length win" and M: "length (win ! c) = length prob_w"
    and th: "\<forall>p \<in> set prob_w. 0 < p \<and> p < 1"
  shows "calc_x_given_prob_win (map (map (\<lambda>v. v = METHYLATED)) win)
            (map (map (\<lambda>v. v = UNMETHYLATED)) win) prob_w ! c
         = (\<Sum>m<length prob_w.
              of_bool (win ! c ! m = METHYLATED) * ln (prob_w ! m)
            + of_bool (win ! c ! m = UNMETHYLATED) * ln (1 - prob_w ! m))"
proof -
  let ?lp = "map nan_to_num_log prob_w" and ?lq = "map nan_to_num_log (one_minus prob_w)"
  have d1: "dot (map of_bool (map (\<lambda>v. v = METHYLATED) (win ! c))) ?lp
        = (\<Sum>m<length prob_w. of_bool (win ! c ! m = METHYLATED) * ln (prob_w ! m))"
  proof -
    have "dot (map of_bool (map (\<lambda>v. v = METHYLATED) (win ! c))) ?lp
        = (\<Sum>m<length ?lp. map of_bool (map (\<lambda>v. v = METHYLATED) (win ! c)) ! m * ?lp ! m)"
      by (rule dot_sum) (simp add: M)
    also have "\<dots> = (\<Sum>m<length prob_w. of_bool (win ! c ! m = METHYLATED) * ln (prob_w ! m))"
    proof (rule sum.cong)
      show "{..<length ?lp} = {..<length prob_w}" by simp
      fix m assume "m \<in> {..<length prob_w}"
      then have m: "m < length prob_w" by simp
      then have "0 < prob_w ! m" using th by simp
      then show "map of_bool (map (\<lambda>v. v = METHYLATED) (win ! c)) ! m * ?lp ! m
           = of_bool (win ! c ! m = METHYLATED) * ln (prob_w ! m)"
        using m M by (simp add: nan_to_num_log_ln)
    qed
    finally show ?thesis .
  qed
  have d2: "dot (map of_bool (map (\<lambda>v. v = UNMETHYLATED) (win ! c))) ?lq
        = (\<Sum>m<length prob_w. of_bool (win ! c ! m = UNMETHYLATED) * ln (1 - prob_w ! m))"
  proof -
    have "dot (map of_bool (map (\<lambda>v. v = UNMETHYLATED) (win ! c))) ?lq
        = (\<Sum>m<length ?lq. map of_bool (map (\<lambda>v. v = UNMETHYLATED) (win ! c)) ! m * ?lq ! m)"
      by (rule dot_sum) (simp add: M one_minus_def)
    also have "\<dots> = (\<Sum>m<length prob_w. of_bool (win ! c ! m = UNMETHYLATED) * ln (1 - prob_w ! m))"
    proof (rule sum.cong)
      show "{..<length ?lq} = {..<length prob_w}" by (simp add: one_minus_def)
      fix m assume "m \<in> {..<length prob_w}"
      then have m: "m < length prob_w" by simp
      then have "prob_w ! m < 1" using th by simp
      then show "map of_bool (map (\<lambda>v. v = UNMETHYLATED) (win ! c)) ! m * ?lq ! m
           = of_bool (win ! c ! m = UNMETHYLATED) * ln (1 - prob_w ! m)"
        using m M by (simp add: nan_to_num_log_ln one_minus_def)
    qed
    finally show ?thesis .
  qed
  have eq: "calc_x_given_prob_win (map (map (\<lambda>v. v = METHYLATED)) win)
            (map (map (\<lambda>v. v = UNMETHYLATED)) win) prob_w ! c
        = dot (map of_bool (map (\<lambda>v. v = METHYLATED) (win ! c))) ?lp
        + dot (map of_bool (map (\<lambda>v. v = UNMETHYLATED) (win ! c))) ?lq"
    using c by (simp add: calc_x_given_prob_win_def Let_def matmul_def astype_int_def)
  show ?thesis unfolding eq d1 d2 by (simp only: sum.distrib)
qed

lemma calc_x_given_prob_win_length:
  "length (calc_x_given_prob_win (map (map f) win) (map (map g) win) prob_w) = length win"
  by (simp add: calc_x_given_prob_win_def Let_def matmul_def astype_int_def)

lemma READMeth_init_masks:
  assumes "READMeth_init h mixtures lambda_t thH thL n crit alpha = (h', Inr self)"
  shows "self_x_c_m self = map (map (map (\<lambda>v. v = METHYLATED))) (self_x self)"
    and "self_x_c_u self = map (map (map (\<lambda>v. v = UNMETHYLATED))) (self_x self)"
  using READMeth_init_Inr(6)[OF assms] by (simp_all add: mk_engine_def)

text \<open>
  Claim C6. For every retained window and every read, \<open>calc_x_given_prob(theta)\<close> returns
  the Bernoulli log-likelihood of the calls of the read: the sum over the CpG sites of
  \<open>methylated * log(theta) + unmethylated * log(1 - theta)\<close>, for theta strictly between 0
  and 1. A site whose call is \<open>NOVAL\<close> adds exactly zero, so the sum is the sum over the
  sites with a call.
\<close>

theorem calc_x_given_prob_bernoulli:
  assumes init: "READMeth_init h mixtures lambda_t theta_high theta_low n crit alpha = (h', Inr self)"
    and w: "window < length (self_x self)"
    and c: "c < length (self_x self ! window)"
    and M: "length (self_x self ! window ! c) = length (theta ! window)"
    and th: "\<forall>p \<in> set (theta ! window). 0 < p \<and> p < 1"
  shows "calc_x_given_prob self theta ! window ! c =
           (\<Sum>m<length (theta ! window).
              of_bool (self_x self ! window ! c ! m = METHYLATED) * ln (theta ! window ! m)
            + of_bool (self_x self ! window ! c ! m = UNMETHYLATED) * ln (1 - theta ! window ! m))
       \<and> calc_x_given_prob self theta ! window ! c =
           (\<Sum>m \<in> {m. m < length (theta ! window) \<and> self_x self ! window ! c ! m \<noteq> NOVAL}.
              of_bool (self_x self ! window ! c ! m = METHYLATED) * ln (theta ! window ! m)
            + of_bool (self_x self ! window ! c ! m = UNMETHYLATED) * ln (1 - theta ! window ! m))
       \<and> length (calc_x_given_prob self theta ! window) = length (self_x self ! window)"
proof -
  let ?win = "self_x self ! window"
  let ?g = "\<lambda>m. of_bool (?win ! c ! m = METHYLATED) * ln (theta ! window ! m)
            + of_bool (?win ! c ! m = UNMETHYLATED) * ln (1 - theta ! window ! (m::nat)) :: real"
  have xm: "self_x_c_m self ! window = map (map (\<lambda>v. v = METHYLATED)) ?win"
    and xu: "self_x_c_u self ! window = map (map (\<lambda>v. v = UNMETHYLATED)) ?win"
    using w by (simp_all add: READMeth_init_masks[OF init])
  have nth: "calc_x_given_prob self theta ! window =
      calc_x_given_prob_win (map (map (\<lambda>v. v = METHYLATED)) ?win)
        (map (map (\<lambda>v. v = UNMETHYLATED)) ?win) (theta ! window)"
    using w by (simp add: calc_x_given_prob_def xm xu)
  have full: "calc_x_given_prob self theta ! window ! c = (\<Sum>m<length (theta ! window). ?g m)"
    unfolding nth by (rule calc_x_given_prob_win_nth[OF c M th])
  have "(\<Sum>m<length (theta ! window). ?g m)
      = (\<Sum>m \<in> {m. m < length (theta ! window) \<and> ?win ! c ! m \<noteq> NOVAL}. ?g m)"
  proof (rule sum.mono_neutral_right)
    show "finite {..<length (theta ! window)}" by simp
    show "{m. m < length (theta ! window) \<and> ?win ! c ! m \<noteq> NOVAL} \<subseteq> {..<length (theta ! window)}"
      by auto
    show "\<forall>i\<in>{..<length (theta ! window)} - {m. m < length (theta ! window) \<and> ?win ! c ! m \<noteq> NOVAL}.
            ?g i = 0"
      by auto
  qed
  moreover have "length (calc_x_given_prob self theta ! window) = length ?win"
    unfolding nth by (rule calc_x_given_prob_win_length)
  ultimately show ?thesis using full by simp
qed

theorem calc_x_given_prob_bernoulli_witness:
  "calc_x_given_prob ex_self [[3/4]] ! 0 ! 0 =
     (\<Sum>m<length ([[3/4]] ! 0 :: real list).
        of_bool (self_x ex_self ! 0 ! 0 ! m = METHYLATED) * ln ([[3/4]] ! 0 ! m)
      + of_bool (self_x ex_self ! 0 ! 0 ! m = UNMETHYLATED) * ln (1 - [[3/4]] ! 0 ! m))"
proof -
  have "calc_x_given_prob ex_self [[3/4]] ! 0 ! 0 =
     (\<Sum>m<length ([[3/4]] ! 0 :: real list).
        of_bool (self_x ex_self ! 0 ! 0 ! m = METHYLATED) * ln ([[3/4]] ! 0 ! m)
      + of_bool (self_x ex_self ! 0 ! 0 ! m = UNMETHYLATED) * ln (1 - [[3/4]] ! 0 ! m))
    \<and> calc_x_given_prob ex_self [[3/4]] ! 0 ! 0 =
           (\<Sum>m \<in> {m. m < length ([[3/4]] ! 0 :: real list) \<and> self_x ex_self ! 0 ! 0 ! m \<noteq> NOVAL}.
              of_bool (self_x ex_self ! 0 ! 0 ! m = METHYLATED) * ln ([[3/4]] ! 0 ! m)
            + of_bool (self_x ex_self ! 0 ! 0 ! m = UNMETHYLATED) * ln (1 - [[3/4]] ! 0 ! m))
       \<and> length (calc_x_given_prob ex_self [[3/4]] ! 0) = length (self_x ex_self ! 0)"
    by (rule calc_x_given_prob_bernoulli[OF ex_init]) (simp_all add: ex_self_def)
  then show ?thesis by blast
qed

section \<open>The steps of the loop on a constructed engine\<close>

lemma hstack_Cons:
  "hstack (z0 # zs) = Inr (map (\<lambda>t. concat (map (\<lambda>z. z ! t) (z0 # zs))) [0..<length z0])"
  by (simp add: hstack_def)

lemma sum_list_concat_real:
  fixes xss :: "real list list"
  shows "sum_list (concat xss) = (\<Sum>xs\<leftarrow>xss. sum_list xs)"
  by (induction xss) simp_all

lemma sum_axis1_hstack:
  "sum_axis1 (map (\<lambda>t. concat (map (\<lambda>z. z ! t) zs)) [0..<T])
     = map (\<lambda>t. \<Sum>z_w\<leftarrow>zs. \<Sum>v\<leftarrow>z_w ! t. v) [0..<T]"
  by (simp add: sum_axis1_def sum_list_concat_real comp_def)

lemma maximization_eq_spec:
  assumes "z \<noteq> []"
  shows "maximization self z = Inr (maximization_spec (real (self_c self)) (length (hd z)) z)"
proof -
  obtain z0 zs where z: "z = z0 # zs" using assms by (cases z) auto
  show ?thesis
    unfolding z maximization_def hstack_Cons maximization_spec_def
    by (simp only: sum.case Let_def sum_axis1_hstack list.sel)
qed






















section \<open>Maximization and the invariants of alpha and mu\<close>

text \<open>
  Claim C5. The maximization step joins the matrices of all windows along the read axis,
  sums over all reads for each cell type, divides by the total number of reads of the
  retained windows and renormalises the result so that it sums to 1: it computes
  \<open>maximization_spec\<close>, with the read count that the constructor took from the retained
  windows.
\<close>

theorem maximization_refines_spec:
  assumes init: "READMeth_init h mixtures lambda_t theta_high theta_low n crit alpha = (h', Inr self)"
    and z: "z \<noteq> []"
  shows "maximization self z =
           Inr (maximization_spec (real (sum_list (map length (filter has_coverage mixtures))))
                  (length (hd z)) z)"
proof -
  have "self_c self = sum_list (map length (filter has_coverage mixtures))"
    using READMeth_init_Inr(6)[OF init] by (simp add: mk_engine_def)
  then show ?thesis using maximization_eq_spec[OF z, of self] by simp
qed

theorem maximization_refines_spec_witness:
  "maximization ex_self [[[5/8], [3/8]]] =
     Inr (maximization_spec (real (sum_list (map length (filter has_coverage ex_mixtures))))
            (length (hd [[[5/8], [3/8 :: real]]])) [[[5/8], [3/8]]])"
  by (rule maximization_refines_spec[OF ex_init]) simp





section \<open>The EM loop\<close>

lemmas mat_defs = transpose_m_def ncols_def bcast_mul_def bcast_div_def mat_add_def emul_def
  one_minus_def one_minus_m_def tile_def ones_def sum_axis0_def sum_axis1_def
  logsumexp_axis0_def logsumexp_def numeral_2_eq_2

lemma exp_two_ln: "0 < x \<Longrightarrow> exp (2 * ln x) = x * (x::real)"
proof -
  assume "0 < x"
  have "exp (2 * ln x) = exp (ln x + ln x)" by simp
  also have "\<dots> = x * x" using \<open>0 < x\<close> by (simp only: exp_add exp_ln)
  finally show ?thesis .
qed

lemma ex_mu0: "init_mu_no_log ex_store' ex_self [1/2, 1/2] = [[3/4]]"
  by (simp add: init_mu_no_log_def init_mu_no_log_win_def ex_self_def ex_store'_3 Let_def mat_defs)

lemma ex_z0: "calc_z ex_store' ex_self [[3/4]] [1/2, 1/2] = [[[5/8], [3/8]]]"
  by (simp add: calc_z_def calc_z_win_def ex_self_def ex_store'_3 Let_def mat_defs)

lemma ex_a1: "maximization ex_self [[[5/8], [3/8]]] = Inr [5/8, 3/8]"
  by (simp add: maximization_def hstack_def ex_self_def Let_def mat_defs)

lemma ex_mu1: "calc_mu ex_self [1/2, 1/2] [[[5/8], [3/8]]] = [[27/34]]"
  by (simp add: calc_mu_def calc_mu_win_def ex_self_def Let_def mat_defs exp_add exp_diff exp_two_ln)

lemma ex_z1: "calc_z ex_store' ex_self [[27/34]] [5/8, 3/8] = [[[55/73], [18/73]]]"
  by (simp add: calc_z_def calc_z_win_def ex_self_def ex_store'_3 Let_def mat_defs)

lemma ex_a2: "maximization ex_self [[[55/73], [18/73]]] = Inr [55/73, 18/73]"
  by (simp add: maximization_def hstack_def ex_self_def Let_def mat_defs)

lemma ex_conv: "test_convergence ex_self [5/8, 3/8] [55/73, 18/73]"
  by (simp add: test_convergence_def mean_def ex_self_def Let_def)

lemma em_loop_Cons_Inr:
  assumes "maximization self (calc_z h self mu alpha) = Inr new_alpha"
  shows "em_loop h self (j # rest) alpha mu ll i =
           (if j \<noteq> 0 \<and> test_convergence self alpha new_alpha then Inr (alpha, j)
            else em_loop h self rest new_alpha (calc_mu self alpha (calc_z h self mu alpha))
                   (ll @ [log_likelihood self alpha]) j)"
  using assms by (simp add: Let_def)




lemma add_pseudocounts_loop_idem:
  "add_pseudocounts_loop rs (add_pseudocounts_loop rs h) = add_pseudocounts_loop rs h"
  by (rule ext) (simp add: add_pseudocounts_loop_apply pc_idem)

lemma READMeth_init_again:
  assumes "READMeth_init h mixtures lambda_t thH thL n crit alpha = (h', res)"
  shows "READMeth_init h' mixtures lambda_t thH thL n crit alpha = (h', res)"
proof -
  have h': "h' = add_pseudocounts_loop lambda_t h"
    using READMeth_init_store[of h mixtures lambda_t thH thL n crit alpha] assms by simp
  have "READMeth_init h' mixtures lambda_t thH thL n crit alpha
          = READMeth_init h mixtures lambda_t thH thL n crit alpha"
    unfolding h' by (simp add: READMeth_init_def add_pseudocounts_def add_pseudocounts_loop_idem)
  then show ?thesis using assms by simp
qed

lemma init_alpha_supplied: "self_alpha self = Some a \<Longrightarrow> init_alpha self uniform = a"
  by (simp add: init_alpha_def)

text \<open>
  Claim C10. With a supplied \<open>alpha\<close> and fixed data, \<open>em\<close> is a function of its inputs
  alone: its result does not depend on the random source, and constructing the engine a
  second time on the same data, which the first construction has already corrected in
  place, gives the same engine and the same store, hence the same final \<open>alpha\<close> and the
  same iteration count.
\<close>

theorem em_deterministic_with_supplied_alpha:
  assumes "READMeth_init h mixtures lambda_t theta_high theta_low n crit (Some a) = (h', res)"
  shows "READMeth_init h' mixtures lambda_t theta_high theta_low n crit (Some a) = (h', res)
       \<and> (\<forall>self. res = Inr self \<longrightarrow>
             self_alpha self = Some a \<and> (\<forall>u1 u2. em h' self u1 = em h' self u2))"
proof -
  have again: "READMeth_init h' mixtures lambda_t theta_high theta_low n crit (Some a) = (h', res)"
    by (rule READMeth_init_again[OF assms])
  have "self_alpha self = Some a \<and> (\<forall>u1 u2. em h' self u1 = em h' self u2)"
    if "res = Inr self" for self
  proof -
    have "READMeth_init h mixtures lambda_t theta_high theta_low n crit (Some a) = (h', Inr self)"
      using assms that by simp
    from READMeth_init_Inr(6)[OF this] have sa: "self_alpha self = Some a"
      by (simp add: mk_engine_def)
    then show ?thesis by (simp add: em_def init_alpha_supplied)
  qed
  then show ?thesis using again by blast
qed

theorem em_deterministic_with_supplied_alpha_witness:
  "READMeth_init ex_store' ex_mixtures [3, 4] [[3/4], [1/2, 1/2]] [[1/4], [1/2, 1/2]] 50 10
      (Some [1/2, 1/2]) = (ex_store', Inr ex_self)
   \<and> em ex_store' ex_self ex_uniform = em ex_store' ex_self (\<lambda>n. replicate n (3/4))"
  using em_deterministic_with_supplied_alpha[OF ex_init] by blast


lemma ex_init_alpha: "init_alpha ex_self uniform = [1/2, 1/2]"
  by (simp add: init_alpha_def ex_self_def)


lemma em_loop_trace:
  assumes "em_loop h self [j..<N] alpha mu ll i = Inr (a, k)"
    and "em_iter h self j s0 = Inr (alpha, mu)"
    and "j \<le> N" and "0 < N" and "j = 0 \<or> i = j - 1"
  shows "(\<exists>mu_k new_alpha mu'. em_iter h self k s0 = Inr (a, mu_k)
            \<and> em_step h self (a, mu_k) = Inr (new_alpha, mu')
            \<and> k \<noteq> 0 \<and> k < N \<and> test_convergence self a new_alpha)
       \<or> (k = N - 1 \<and> (\<exists>mu_N. em_iter h self N s0 = Inr (a, mu_N)))"
  using assms
proof (induction "N - j" arbitrary: j alpha mu ll i)
  case 0
  then have jN: "j = N" by simp
  then have "a = alpha" "k = i" using "0.prems"(1) by simp_all
  moreover have "i = N - 1" using "0.prems"(4,5) jN by auto
  ultimately show ?case using "0.prems"(2) jN by auto
next
  case (Suc d)
  then have jN: "j < N" by simp
  then have range: "[j..<N] = j # [Suc j..<N]" by (simp add: upt_conv_Cons)
  let ?z = "calc_z h self mu alpha"
  obtain new_alpha where m: "maximization self ?z = Inr new_alpha"
    using Suc.prems(1) unfolding range by (cases "maximization self ?z") (simp_all add: Let_def)
  have step: "em_step h self (alpha, mu) = Inr (new_alpha, calc_mu self alpha ?z)"
    by (simp add: em_step_def m)
  show ?case
  proof (cases "j \<noteq> 0 \<and> test_convergence self alpha new_alpha")
    case True
    then have "a = alpha" "k = j"
      using Suc.prems(1) unfolding range em_loop_Cons_Inr[OF m] by simp_all
    then show ?thesis using Suc.prems(2) step True jN by blast
  next
    case False
    then have next_run: "em_loop h self [Suc j..<N] new_alpha (calc_mu self alpha ?z)
                    (ll @ [log_likelihood self alpha]) j = Inr (a, k)"
      using Suc.prems(1) unfolding range em_loop_Cons_Inr[OF m] by (auto split: if_splits)
    have it: "em_iter h self (Suc j) s0 = Inr (new_alpha, calc_mu self alpha ?z)"
      by (simp add: Suc.prems(2) step)
    have d: "d = N - Suc j" using Suc.hyps(2) by simp
    show ?thesis
      by (rule Suc.hyps(1)[OF d next_run it]) (use jN Suc.prems(4) in simp_all)
  qed
qed

lemma em_step_max:
  assumes "em_step h self (alpha, mu) = Inr (new_alpha, mu')"
  shows "maximization self (calc_z h self mu alpha) = Inr new_alpha"
    and "mu' = calc_mu self alpha (calc_z h self mu alpha)"
  using assms by (auto simp: em_step_def split: sum.splits)

lemma em_iter_prefix:
  assumes "em_iter h self k s = Inr y" and "j \<le> k"
  shows "\<exists>x. em_iter h self j s = Inr x"
  using assms
proof (induction k arbitrary: y)
  case 0
  then show ?case by simp
next
  case (Suc k)
  show ?case
  proof (cases "j = Suc k")
    case True
    then show ?thesis using Suc.prems(1) by blast
  next
    case False
    then have jk: "j \<le> k" using Suc.prems(2) by simp
    obtain x where "em_iter h self k s = Inr x"
      using Suc.prems(1) by (cases "em_iter h self k s") simp_all
    then show ?thesis using Suc.IH jk by blast
  qed
qed

lemma em_loop_forward:
  assumes k: "em_iter h self k s0 = Inr (a, mu_k)"
      "em_step h self (a, mu_k) = Inr (new_alpha, mu')"
      "k \<noteq> 0" "k < N" "test_convergence self a new_alpha"
    and none: "\<And>j a_j mu_j new_j mu_j'. 0 < j \<Longrightarrow> j < k \<Longrightarrow>
        em_iter h self j s0 = Inr (a_j, mu_j) \<Longrightarrow>
        em_step h self (a_j, mu_j) = Inr (new_j, mu_j') \<Longrightarrow> \<not> test_convergence self a_j new_j"
    and j: "em_iter h self j s0 = Inr (alpha, mu)" "j \<le> k"
  shows "em_loop h self [j..<N] alpha mu ll i = Inr (a, k)"
  using j
proof (induction "k - j" arbitrary: j alpha mu ll i)
  case 0
  then have jk: "j = k" by simp
  then have st: "alpha = a" "mu = mu_k" using "0.prems"(1) k(1) by simp_all
  have range: "[j..<N] = k # [Suc k..<N]" using k(4) jk by (simp add: upt_conv_Cons)
  have m: "maximization self (calc_z h self mu alpha) = Inr new_alpha"
    using em_step_max(1)[OF k(2)] st by simp
  show ?case
    unfolding range em_loop_Cons_Inr[OF m] using k(3,5) st by simp
next
  case (Suc d)
  then have jk: "j < k" by simp
  then have "Suc j \<le> k" by simp
  from em_iter_prefix[OF k(1) this] obtain x where x: "em_iter h self (Suc j) s0 = Inr x" by blast
  obtain new_j mu_j' where xx: "x = (new_j, mu_j')" by (cases x)
  have st: "em_step h self (alpha, mu) = Inr (new_j, mu_j')"
    using x Suc.prems(1) xx by simp
  have m: "maximization self (calc_z h self mu alpha) = Inr new_j"
    and mu': "mu_j' = calc_mu self alpha (calc_z h self mu alpha)"
    using em_step_max[OF st] by simp_all
  have notest: "\<not> (j \<noteq> 0 \<and> test_convergence self alpha new_j)"
    using none[OF _ jk Suc.prems(1) st] by auto
  have range: "[j..<N] = j # [Suc j..<N]" using jk k(4) by (simp add: upt_conv_Cons)
  have d: "d = k - Suc j" using Suc.hyps(2) by simp
  have it: "em_iter h self (Suc j) s0 = Inr (new_j, calc_mu self alpha (calc_z h self mu alpha))"
    using x xx mu' by simp
  have "em_loop h self [Suc j..<N] new_j (calc_mu self alpha (calc_z h self mu alpha))
          (ll @ [log_likelihood self alpha]) j = Inr (a, k)"
    by (rule Suc.hyps(1)[OF d it]) (use jk in simp)
  then show ?case
    unfolding range em_loop_Cons_Inr[OF m] using notest by auto
qed

text \<open>
  Claim C1, as the code has it. When the convergence test succeeds, for the first time, at
  an iteration \<open>k \<ge> 1\<close>, \<open>em\<close> leaves the loop without assigning the candidate that passed
  the test: it returns the \<open>alpha\<close> that was current when iteration \<open>k\<close> began, which is the
  candidate adopted at the end of iteration \<open>k - 1\<close>, together with \<open>k\<close>.
\<close>

theorem em_breaks_with_alpha_of_converged_iteration:
  assumes "em_iter h self k (init_alpha self uniform,
                             init_mu_no_log h self (init_alpha self uniform)) = Inr (a, mu_k)"
    and "em_step h self (a, mu_k) = Inr (new_alpha, mu')"
    and "k \<noteq> 0" and "k < self_num_iterations self"
    and "test_convergence self a new_alpha"
    and "\<forall>j a_j mu_j new_j mu_j'. 0 < j \<and> j < k
           \<and> em_iter h self j (init_alpha self uniform,
                                init_mu_no_log h self (init_alpha self uniform)) = Inr (a_j, mu_j)
           \<and> em_step h self (a_j, mu_j) = Inr (new_j, mu_j')
           \<longrightarrow> \<not> test_convergence self a_j new_j"
  shows "em h self uniform = Inr (a, k)"
proof -
  let ?s0 = "(init_alpha self uniform, init_mu_no_log h self (init_alpha self uniform))"
  have start: "em_iter h self 0 ?s0 = Inr ?s0" by simp
  have "em_loop h self [0..<self_num_iterations self] (init_alpha self uniform)
          (init_mu_no_log h self (init_alpha self uniform)) [] 0 = Inr (a, k)"
    by (rule em_loop_forward[OF assms(1-5) _ start]) (use assms(6) in blast, simp)
  then show ?thesis by (simp add: em_def Let_def)
qed

lemma ex_step0: "maximization ex_self (calc_z ex_store' ex_self [[3/4]] [1/2, 1/2]) = Inr [5/8, 3/8]"
  by (simp only: ex_z0 ex_a1)

lemma ex_step1: "maximization ex_self (calc_z ex_store' ex_self [[27/34]] [5/8, 3/8]) = Inr [55/73, 18/73]"
  by (simp only: ex_z1 ex_a2)

lemma ex_mu1': "calc_mu ex_self [1/2, 1/2] (calc_z ex_store' ex_self [[3/4]] [1/2, 1/2]) = [[27/34]]"
  by (simp only: ex_z0 ex_mu1)

lemma ex_run: "em ex_store' ex_self ex_uniform = Inr ([5/8, 3/8], 1)"
proof -
  have range: "[0..<self_num_iterations ex_self] = 0 # 1 # [2..<50]"
    by (simp add: ex_self_def upt_conv_Cons)
  show ?thesis
    unfolding em_def Let_def ex_init_alpha ex_mu0 range
    by (simp add: em_loop_Cons_Inr[OF ex_step0] ex_mu1' em_loop_Cons_Inr[OF ex_step1] ex_conv
          del: em_loop.simps)
qed

lemma ex2_same:
  "calc_z h ex_self2 mu alpha = calc_z h ex_self mu alpha"
  "calc_mu ex_self2 alpha z = calc_mu ex_self alpha z"
  "maximization ex_self2 z = maximization ex_self z"
  "init_mu_no_log h ex_self2 alpha = init_mu_no_log h ex_self alpha"
  "init_alpha ex_self2 uniform = init_alpha ex_self uniform"
  by (simp_all add: ex_self2_def ex_self_def calc_z_def calc_mu_def maximization_def
        init_mu_no_log_def init_alpha_def split: sum.splits option.splits)

lemma ex2_step: "em_step h ex_self2 s = em_step h ex_self s"
  by (simp add: em_step_def ex2_same split: sum.splits)

lemma ex_mu2: "calc_mu ex_self [5/8, 3/8] [[[55/73], [18/73]]] = [[549/658]]"
  by (simp add: calc_mu_def calc_mu_win_def ex_self_def Let_def mat_defs exp_add exp_diff exp_two_ln)

lemma ex_z2: "calc_z ex_store' ex_self [[549/658]] [55/73, 18/73] = [[[24145/28087], [3942/28087]]]"
  by (simp add: calc_z_def calc_z_win_def ex_self_def ex_store'_3 Let_def mat_defs)

lemma ex_a3: "maximization ex_self [[[24145/28087], [3942/28087]]] = Inr [24145/28087, 3942/28087]"
  by (simp add: maximization_def hstack_def ex_self_def Let_def mat_defs)

lemma ex_em_step0: "em_step ex_store' ex_self ([1/2, 1/2], [[3/4]]) = Inr ([5/8, 3/8], [[27/34]])"
  by (simp add: em_step_def ex_z0 ex_a1 ex_mu1)

lemma ex_em_step1: "em_step ex_store' ex_self ([5/8, 3/8], [[27/34]]) = Inr ([55/73, 18/73], [[549/658]])"
  by (simp add: em_step_def ex_z1 ex_a2 ex_mu2)

lemma ex_em_step2:
  "em_step ex_store' ex_self ([55/73, 18/73], [[549/658]])
     = Inr ([24145/28087, 3942/28087], calc_mu ex_self [55/73, 18/73] [[[24145/28087], [3942/28087]]])"
  by (simp add: em_step_def ex_z2 ex_a3)

lemma ex2_no_conv1: "\<not> test_convergence ex_self2 [5/8, 3/8] [55/73, 18/73]"
  by (simp add: test_convergence_def mean_def ex_self2_def ex_self_def Let_def)

lemma ex2_conv2: "test_convergence ex_self2 [55/73, 18/73] [24145/28087, 3942/28087]"
  by (simp add: test_convergence_def mean_def ex_self2_def ex_self_def Let_def)

lemma ex2_iter1:
  "em_iter ex_store' ex_self2 1 (init_alpha ex_self2 ex_uniform,
      init_mu_no_log ex_store' ex_self2 (init_alpha ex_self2 ex_uniform)) = Inr ([5/8, 3/8], [[27/34]])"
  by (simp add: ex2_same ex2_step ex_init_alpha ex_mu0 ex_em_step0)

lemma ex2_iter2:
  "em_iter ex_store' ex_self2 2 (init_alpha ex_self2 ex_uniform,
      init_mu_no_log ex_store' ex_self2 (init_alpha ex_self2 ex_uniform)) = Inr ([55/73, 18/73], [[549/658]])"
  using ex2_iter1 by (simp add: numeral_2_eq_2 ex2_step ex_em_step1)

theorem em_breaks_with_alpha_of_converged_iteration_witness:
  "em ex_store' ex_self2 ex_uniform = Inr ([55/73, 18/73], 2)"
proof (rule em_breaks_with_alpha_of_converged_iteration[OF ex2_iter2])
  show "em_step ex_store' ex_self2 ([55/73, 18/73], [[549/658]])
     = Inr ([24145/28087, 3942/28087], calc_mu ex_self [55/73, 18/73] [[[24145/28087], [3942/28087]]])"
    by (simp only: ex2_step ex_em_step2)
  show "(2::nat) \<noteq> 0" by simp
  show "2 < self_num_iterations ex_self2" by (simp add: ex_self2_def ex_self_def)
  show "test_convergence ex_self2 [55/73, 18/73] [24145/28087, 3942/28087]" by (rule ex2_conv2)
  show "\<forall>j a_j mu_j new_j mu_j'. 0 < j \<and> j < 2
           \<and> em_iter ex_store' ex_self2 j (init_alpha ex_self2 ex_uniform,
                 init_mu_no_log ex_store' ex_self2 (init_alpha ex_self2 ex_uniform)) = Inr (a_j, mu_j)
           \<and> em_step ex_store' ex_self2 (a_j, mu_j) = Inr (new_j, mu_j')
           \<longrightarrow> \<not> test_convergence ex_self2 a_j new_j"
  proof (intro allI impI)
    fix j a_j mu_j new_j mu_j'
    assume A: "0 < j \<and> j < 2
           \<and> em_iter ex_store' ex_self2 j (init_alpha ex_self2 ex_uniform,
                 init_mu_no_log ex_store' ex_self2 (init_alpha ex_self2 ex_uniform)) = Inr (a_j, mu_j)
           \<and> em_step ex_store' ex_self2 (a_j, mu_j) = Inr (new_j, mu_j')"
    then have j: "j = 1" by simp
    have it: "em_iter ex_store' ex_self2 1 (init_alpha ex_self2 ex_uniform,
                 init_mu_no_log ex_store' ex_self2 (init_alpha ex_self2 ex_uniform)) = Inr (a_j, mu_j)"
      using A unfolding j by blast
    have "Inr (a_j, mu_j) = (Inr ([5/8, 3/8], [[27/34]]) :: error + (vec \<times> vec list))"
      using it unfolding ex2_iter1 by simp
    then have aj: "a_j = [5/8, 3/8]" "mu_j = [[27/34]]" by simp_all
    have "em_step ex_store' ex_self2 (a_j, mu_j) = Inr (new_j, mu_j')" using A by blast
    then have "new_j = [55/73, 18/73]" unfolding aj ex2_step ex_em_step1 by simp
    then show "\<not> test_convergence ex_self2 a_j new_j"
      using ex2_no_conv1 aj by simp
  qed
qed

text \<open>
  Claim C1 as the specification states it fails on the example engine: with the supplied
  \<open>alpha = [1/2, 1/2]\<close> and the threshold 10, the test succeeds at iteration 1 for the
  candidate \<open>[55/73, 18/73]\<close>, and \<open>em\<close> returns \<open>[5/8, 3/8]\<close>, the candidate of
  iteration 0.
\<close>

theorem em_returns_converged_candidate_counterexample:
  "READMeth_init ex_store ex_mixtures [3, 4] [[3/4], [1/2, 1/2]] [[1/4], [1/2, 1/2]] 50 10
      (Some [1/2, 1/2]) = (ex_store', Inr ex_self)
   \<and> init_alpha ex_self ex_uniform = [1/2, 1/2]
   \<and> init_mu_no_log ex_store' ex_self [1/2, 1/2] = [[3/4]]
   \<and> maximization ex_self (calc_z ex_store' ex_self [[3/4]] [1/2, 1/2]) = Inr [5/8, 3/8]
   \<and> calc_mu ex_self [1/2, 1/2] (calc_z ex_store' ex_self [[3/4]] [1/2, 1/2]) = [[27/34]]
   \<and> maximization ex_self (calc_z ex_store' ex_self [[27/34]] [5/8, 3/8]) = Inr [55/73, 18/73]
   \<and> test_convergence ex_self [5/8, 3/8] [55/73, 18/73]
   \<and> em ex_store' ex_self ex_uniform = Inr ([5/8, 3/8], 1)
   \<and> [5/8, 3/8] \<noteq> [55/73, 18/73 :: real]"
proof -
  have ne: "[5/8, 3/8] \<noteq> [55/73, 18/73 :: real]" by simp
  show ?thesis
    using ex_init ex_init_alpha ex_mu0 ex_step0 ex_mu1' ex_step1 ex_conv ex_run ne by blast
qed

end
